theory Spec2Isabelle
  imports Complex_Main "HOL-Library.Word"
begin

unbundle bit_operations_syntax

section \<open>Bytes, errors and Python values\<close>

text \<open>
  The codec of \<^verbatim>\<open>pybinrpc/support.py\<close> works on Python \<^verbatim>\<open>bytes\<close> and on dynamically
  typed values. A byte is an 8-bit word, a Python \<^verbatim>\<open>str\<close> is its list of code points, and
  every exception the codec can raise is a constructor of \<open>error\<close>: \<^verbatim>\<open>struct.error\<close> from
  \<^verbatim>\<open>struct.pack\<close> and \<^verbatim>\<open>struct.unpack_from\<close>, \<^verbatim>\<open>IndexError\<close> from indexing a buffer,
  \<^verbatim>\<open>UnicodeEncodeError\<close> from \<^verbatim>\<open>str.encode(errors="strict")\<close>, \<^verbatim>\<open>RecursionError\<close> from
  the interpreter's recursion limit, and the three \<^verbatim>\<open>ValueError\<close>s of the decoders.

  A text encoding is a parameter: \<open>str_encode\<close> is \<^verbatim>\<open>s.encode(encoding, errors="strict")\<close>
  (\<open>None\<close> where it raises) and \<open>str_decode\<close> is
  \<^verbatim>\<open>b.decode(encoding, errors="replace")\<close>, which never raises.

  Python floats are modelled by real numbers; a dict is the list of its items in insertion
  order.
\<close>

type_synonym byte = "8 word"
type_synonym bytes = "byte list"
type_synonym pystr = "nat list"

datatype error =
    StructError
  | IndexError
  | UnicodeEncodeError
  | RecursionError
  | Unsupported_type int
  | Invalid_request_frame
  | Invalid_response_frame

record codec =
  str_encode :: "pystr \<Rightarrow> bytes option"
  str_decode :: "bytes \<Rightarrow> pystr"

datatype pyval =
    PNone
  | PBool bool
  | PInt int
  | PFloat real
  | PStr pystr
  | PList "pyval list"
  | PDict "(pystr \<times> pyval) list"

text \<open>Sequencing of fallible steps: the first exception ends the computation.\<close>

definition bnd :: "error + 'a \<Rightarrow> ('a \<Rightarrow> error + 'b) \<Rightarrow> error + 'b" where
  "bnd m f = (case m of Inl e \<Rightarrow> Inl e | Inr x \<Rightarrow> f x)"

section \<open>Wire constants\<close>

definition HDR_REQ :: bytes where "HDR_REQ = [0x42, 0x69, 0x6E, 0x00]"
definition HDR_RES :: bytes where "HDR_RES = [0x42, 0x69, 0x6E, 0x01]"
definition T_INTEGER :: int where "T_INTEGER = 0x00000001"
definition T_BOOL :: int where "T_BOOL = 0x00000002"
definition T_STRING :: int where "T_STRING = 0x00000003"
definition T_DOUBLE :: int where "T_DOUBLE = 0x00000004"
definition T_ARRAY :: int where "T_ARRAY = 0x00000100"
definition T_STRUCT :: int where "T_STRUCT = 0x00000101"
definition T_BINARY :: int where "T_BINARY = 0x0000000E"

section \<open>Fixed-width integers\<close>

text \<open>
  \<open>be_u32\<close> is \<^verbatim>\<open>struct.pack(">I", n)\<close>, which raises outside \<open>0 .. 2^32 - 1\<close>;
  \<open>be_i32\<close> is the \<^verbatim>\<open>">i"\<close> format; \<open>rd_u32\<close> is \<^verbatim>\<open>struct.unpack_from(">I", buf, ofs)\<close>,
  which raises when fewer than four bytes remain at \<open>ofs\<close>.
\<close>

definition be_bytes32 :: "int \<Rightarrow> bytes" where
  "be_bytes32 n =
     [of_int (n div 256 div 256 div 256), of_int (n div 256 div 256), of_int (n div 256), of_int n]"

definition be_u32 :: "int \<Rightarrow> error + bytes" where
  "be_u32 n = (if 0 \<le> n \<and> n < 4294967296 then Inr (be_bytes32 n) else Inl StructError)"

definition be_i32 :: "int \<Rightarrow> error + bytes" where
  "be_i32 n = (if - 2147483648 \<le> n \<and> n < 2147483648 then Inr (be_bytes32 (n mod 4294967296))
               else Inl StructError)"

definition rd_u32 :: "bytes \<Rightarrow> nat \<Rightarrow> error + (int \<times> nat)" where
  "rd_u32 buf ofs =
     (if ofs + 4 \<le> length buf
      then Inr (((uint (buf ! ofs) * 256 + uint (buf ! (ofs + 1))) * 256
                  + uint (buf ! (ofs + 2))) * 256 + uint (buf ! (ofs + 3)), ofs + 4)
      else Inl StructError)"

definition rd_i32 :: "bytes \<Rightarrow> nat \<Rightarrow> error + (int \<times> nat)" where
  "rd_i32 buf ofs =
     bnd (rd_u32 buf ofs) (\<lambda>(u, ofs'). Inr (if u < 2147483648 then u else u - 4294967296, ofs'))"

definition b_enc :: "codec \<Rightarrow> pystr \<Rightarrow> error + bytes" where
  "b_enc encoding s = (case str_encode encoding s of None \<Rightarrow> Inl UnicodeEncodeError | Some b \<Rightarrow> Inr b)"

section \<open>Encoders\<close>

definition enc_string :: "codec \<Rightarrow> pystr \<Rightarrow> error + bytes" where
  "enc_string encoding s =
     bnd (b_enc encoding s) (\<lambda>b.
     bnd (be_u32 T_STRING) (\<lambda>t.
     bnd (be_u32 (int (length b))) (\<lambda>l. Inr (t @ l @ b))))"

definition enc_bool :: "bool \<Rightarrow> error + bytes" where
  "enc_bool v = bnd (be_u32 T_BOOL) (\<lambda>t. Inr (t @ (if v then [1] else [0])))"

definition enc_integer :: "int \<Rightarrow> error + bytes" where
  "enc_integer n =
     bnd (be_u32 T_INTEGER) (\<lambda>t.
     bnd (be_u32 (n AND 0xFFFFFFFF)) (\<lambda>b. Inr (t @ b)))"

text \<open>
  \<open>trunc_int\<close> is Python's \<^verbatim>\<open>int(x)\<close> on a float (rounding towards zero) and
  \<open>floor_log2 x\<close> is \<^verbatim>\<open>math.floor(math.log(x, 2))\<close>, called on \<open>\<bar>v\<bar>\<close> for \<open>v \<noteq> 0\<close> only.
\<close>

definition trunc_int :: "real \<Rightarrow> int" where
  "trunc_int x = (if 0 \<le> x then \<lfloor>x\<rfloor> else \<lceil>x\<rceil>)"

definition floor_log2 :: "real \<Rightarrow> int" where
  "floor_log2 x = (if x \<le> 0 then 0 else \<lfloor>log 2 x\<rfloor>)"

definition enc_double_parts :: "real \<Rightarrow> int \<times> int" where
  "enc_double_parts v =
     (if v = 0 then (0, 0)
      else (let exponent = floor_log2 \<bar>v\<bar> + 1;
                mantissa = trunc_int ((v * power_int 2 (- exponent)) * 1073741824)
            in (mantissa, exponent)))"

definition enc_double :: "real \<Rightarrow> error + bytes" where
  "enc_double v =
     (case enc_double_parts v of (m, e) \<Rightarrow>
        bnd (be_u32 T_DOUBLE) (\<lambda>t.
        bnd (be_i32 e) (\<lambda>eb.
        bnd (be_u32 (m AND 0xFFFFFFFF)) (\<lambda>mb. Inr (t @ eb @ mb)))))"

text \<open>
  \<open>enc_data\<close> dispatches on the dynamic type. \<open>PNone\<close> stands for the values of no
  native kind: it is encoded as the string \<^verbatim>\<open>str(None)\<close>. The loops of \<^verbatim>\<open>enc_array\<close> and
  \<^verbatim>\<open>enc_struct\<close> are \<open>enc_elems\<close> and \<open>enc_items\<close>.
\<close>

definition str_None :: pystr where
  "str_None = [78, 111, 110, 101]"

fun enc_data :: "codec \<Rightarrow> pyval \<Rightarrow> error + bytes"
  and enc_elems :: "codec \<Rightarrow> pyval list \<Rightarrow> error + bytes"
  and enc_items :: "codec \<Rightarrow> (pystr \<times> pyval) list \<Rightarrow> error + bytes"
where
  "enc_data encoding (PBool v) = enc_bool v"
| "enc_data encoding (PInt n) = enc_integer n"
| "enc_data encoding (PFloat v) = enc_double v"
| "enc_data encoding (PStr s) = enc_string encoding s"
| "enc_data encoding (PList a) =
     bnd (be_u32 T_ARRAY) (\<lambda>t.
     bnd (be_u32 (int (length a))) (\<lambda>l.
     bnd (enc_elems encoding a) (\<lambda>b. Inr (t @ l @ b))))"
| "enc_data encoding (PDict d) =
     bnd (be_u32 T_STRUCT) (\<lambda>t.
     bnd (be_u32 (int (length d))) (\<lambda>l.
     bnd (enc_items encoding d) (\<lambda>b. Inr (t @ l @ b))))"
| "enc_data encoding PNone = enc_string encoding str_None"
| "enc_elems encoding [] = Inr []"
| "enc_elems encoding (el # a) =
     bnd (enc_data encoding el) (\<lambda>x.
     bnd (enc_elems encoding a) (\<lambda>r. Inr (x @ r)))"
| "enc_items encoding [] = Inr []"
| "enc_items encoding ((k, v) # d) =
     bnd (b_enc encoding k) (\<lambda>kb.
     bnd (be_u32 (int (length kb))) (\<lambda>l.
     bnd (enc_data encoding v) (\<lambda>x.
     bnd (enc_items encoding d) (\<lambda>r. Inr (l @ kb @ x @ r)))))"

section \<open>Decoders\<close>

text \<open>
  A decoder takes the buffer and an offset and returns the value with the next offset.
  Slicing (\<^verbatim>\<open>buf[ofs : ofs + length]\<close>) never raises and is cut at the end of the buffer,
  whereas the offset returned by \<open>dec_string\<close> is \<open>ofs + length\<close> whatever the slice held.
\<close>

definition dec_double :: "bytes \<Rightarrow> nat \<Rightarrow> error + (pyval \<times> nat)" where
  "dec_double buf ofs =
     bnd (rd_i32 buf ofs) (\<lambda>(e, ofs).
     bnd (rd_u32 buf ofs) (\<lambda>(mu32, ofs).
       Inr (PFloat ((real_of_int mu32 / 1073741824) * power_int 2 e), ofs)))"

definition dec_string :: "codec \<Rightarrow> bytes \<Rightarrow> nat \<Rightarrow> error + (pystr \<times> nat)" where
  "dec_string encoding buf ofs =
     bnd (rd_u32 buf ofs) (\<lambda>(len, ofs).
       Inr (str_decode encoding (take (nat len) (drop ofs buf)), ofs + nat len))"

definition dec_bool :: "bytes \<Rightarrow> nat \<Rightarrow> error + (pyval \<times> nat)" where
  "dec_bool buf ofs =
     (if ofs < length buf then Inr (PBool (buf ! ofs = 1), ofs + 1) else Inl IndexError)"

definition dec_int :: "bytes \<Rightarrow> nat \<Rightarrow> error + (pyval \<times> nat)" where
  "dec_int buf ofs =
     bnd (rd_u32 buf ofs) (\<lambda>(v, ofs).
       Inr (PInt (if v AND 0x80000000 \<noteq> 0 then - ((NOT v + 1) AND 0xFFFFFFFF) else v), ofs))"

text \<open>\<^verbatim>\<open>outd[key] = val\<close>: an existing key keeps its position and takes the new value.\<close>

fun dict_set :: "(pystr \<times> pyval) list \<Rightarrow> pystr \<Rightarrow> pyval \<Rightarrow> (pystr \<times> pyval) list" where
  "dict_set [] key val = [(key, val)]"
| "dict_set ((k, v) # d) key val = (if k = key then (k, val) # d else (k, v) # dict_set d key val)"

text \<open>
  \<open>dec_data_f\<close> is \<^verbatim>\<open>dec_data\<close> with its recursion depth bounded by \<open>fuel\<close>; the two
  \<^verbatim>\<open>for _ in range(n)\<close> loops are \<open>dec_array_loop\<close> and \<open>dec_struct_loop\<close>, which carry the
  list or dict built so far. Every nested call has read at least eight bytes of the buffer
  before it starts, so that a depth of \<open>Suc (length buf)\<close> is never reached: \<open>dec_data\<close>
  runs \<open>dec_data_f\<close> with that bound.
\<close>

function (sequential) dec_data_f :: "nat \<Rightarrow> codec \<Rightarrow> bytes \<Rightarrow> nat \<Rightarrow> error + (pyval \<times> nat)"
  and dec_array_loop ::
    "nat \<Rightarrow> codec \<Rightarrow> bytes \<Rightarrow> nat \<Rightarrow> nat \<Rightarrow> pyval list \<Rightarrow> error + (pyval list \<times> nat)"
  and dec_struct_loop ::
    "nat \<Rightarrow> codec \<Rightarrow> bytes \<Rightarrow> nat \<Rightarrow> nat \<Rightarrow> (pystr \<times> pyval) list
      \<Rightarrow> error + ((pystr \<times> pyval) list \<times> nat)"
where
  "dec_data_f 0 encoding buf ofs = Inl RecursionError"
| "dec_data_f (Suc fuel) encoding buf ofs =
     bnd (rd_u32 buf ofs) (\<lambda>(t, ofs).
       if t = T_STRING then
         bnd (dec_string encoding buf ofs) (\<lambda>(s, ofs). Inr (PStr s, ofs))
       else if t = T_BOOL then dec_bool buf ofs
       else if t = T_INTEGER then dec_int buf ofs
       else if t = T_DOUBLE then dec_double buf ofs
       else if t = T_ARRAY then
         bnd (rd_u32 buf ofs) (\<lambda>(n, ofs).
         bnd (dec_array_loop fuel encoding buf (nat n) ofs []) (\<lambda>(outl, ofs).
           Inr (PList outl, ofs)))
       else if t = T_STRUCT then
         bnd (rd_u32 buf ofs) (\<lambda>(n, ofs).
         bnd (dec_struct_loop fuel encoding buf (nat n) ofs []) (\<lambda>(outd, ofs).
           Inr (PDict outd, ofs)))
       else Inl (Unsupported_type t))"
| "dec_array_loop fuel encoding buf 0 ofs outl = Inr (outl, ofs)"
| "dec_array_loop fuel encoding buf (Suc k) ofs outl =
     bnd (dec_data_f fuel encoding buf ofs) (\<lambda>(val, ofs).
       dec_array_loop fuel encoding buf k ofs (outl @ [val]))"
| "dec_struct_loop fuel encoding buf 0 ofs outd = Inr (outd, ofs)"
| "dec_struct_loop fuel encoding buf (Suc k) ofs outd =
     bnd (dec_string encoding buf ofs) (\<lambda>(key, ofs).
     bnd (dec_data_f fuel encoding buf ofs) (\<lambda>(val, ofs).
       dec_struct_loop fuel encoding buf k ofs (dict_set outd key val)))"
  by pat_completeness auto

termination
  by (relation "inv_image (less_than <*lex*> less_than) (\<lambda>x. case x of
        Inl (fuel, _) \<Rightarrow> (fuel, 0)
      | Inr (Inl (fuel, _, _, k, _)) \<Rightarrow> (fuel, Suc k)
      | Inr (Inr (fuel, _, _, k, _)) \<Rightarrow> (fuel, Suc k))") auto

definition dec_data :: "codec \<Rightarrow> bytes \<Rightarrow> nat \<Rightarrow> error + (pyval \<times> nat)" where
  "dec_data encoding buf ofs = dec_data_f (Suc (length buf)) encoding buf ofs"

section \<open>Frames\<close>

definition enc_request :: "codec \<Rightarrow> pystr \<Rightarrow> pyval list \<Rightarrow> error + bytes" where
  "enc_request encoding method params =
     bnd (b_enc encoding method) (\<lambda>m.
     bnd (be_u32 (int (length m))) (\<lambda>ml.
     bnd (be_u32 (int (length params))) (\<lambda>pl.
     bnd (enc_elems encoding params) (\<lambda>ps.
       let body = ml @ m @ pl @ ps; total = 8 + int (length body)
       in bnd (be_u32 total) (\<lambda>tl. Inr (HDR_REQ @ tl @ body))))))"

definition enc_response :: "codec \<Rightarrow> pyval \<Rightarrow> error + bytes" where
  "enc_response encoding ret =
     bnd (if ret = PNone then enc_string encoding [] else enc_data encoding ret) (\<lambda>payload.
     bnd (be_u32 0) (\<lambda>st.
       let body = st @ payload; total = 8 + int (length body)
       in bnd (be_u32 total) (\<lambda>tl. Inr (HDR_RES @ tl @ body))))"

definition dec_request :: "codec \<Rightarrow> bytes \<Rightarrow> error + (pystr \<times> pyval list)" where
  "dec_request encoding frame =
     (if length frame < 8 \<or> take 4 frame \<noteq> take 4 HDR_REQ then Inl Invalid_request_frame
      else bnd (be_u32 (int (length frame))) (\<lambda>l.
        if take 4 (drop 4 frame) \<noteq> l then Inl Invalid_request_frame
        else let body = drop 8 frame in
          bnd (dec_string encoding body 0) (\<lambda>(method, ofs).
          bnd (rd_u32 body ofs) (\<lambda>(n, ofs).
          bnd (dec_array_loop (Suc (length body)) encoding body (nat n) ofs []) (\<lambda>(params, ofs).
            Inr (method, params))))))"

definition dec_response :: "codec \<Rightarrow> bytes \<Rightarrow> error + pyval" where
  "dec_response default_encoding frame =
     (if length frame < 8 \<or> take 4 frame \<noteq> take 4 HDR_RES then Inl Invalid_response_frame
      else bnd (be_u32 (int (length frame))) (\<lambda>l.
        if take 4 (drop 4 frame) \<noteq> l then Inl Invalid_response_frame
        else let body = drop 8 frame in
          bnd (rd_u32 body 0) (\<lambda>(status, ofs).
            if ofs \<ge> length body then Inr PNone
            else bnd (dec_data default_encoding body ofs) (\<lambda>(v, ofs'). Inr v))))"

text \<open>
  Python's \<^verbatim>\<open>"ascii"\<close> codec, the encoding of the repository's framing test: code points
  below 128 are single bytes, any other code point makes \<^verbatim>\<open>encode\<close> raise, and a byte from
  128 on decodes to U+FFFD under \<^verbatim>\<open>errors="replace"\<close>.
\<close>

definition ascii :: codec where
  "ascii = \<lparr> str_encode = (\<lambda>s. if list_all (\<lambda>c. c < 128) s then Some (map of_nat s) else None),
             str_decode = map (\<lambda>b. if b < 128 then unat b else 65533) \<rparr>"

section \<open>Basic lemmas\<close>

lemma floor_log2_code [code]:
  "floor_log2 x = (if x \<le> 0 then 0 else if 2 \<le> x then floor_log2 (x / 2) + 1
                   else if x < 1 then floor_log2 (x * 2) - 1 else 0)"
proof -
  have a: "floor_log2 x = floor_log2 (x / 2) + 1" if "2 \<le> x"
  proof -
    have "log 2 x = log 2 (x / 2) + 1" using that by (simp add: log_divide)
    then show ?thesis using that by (simp add: floor_log2_def)
  qed
  have b: "floor_log2 x = floor_log2 (x * 2) - 1" if "0 < x" "x < 1"
  proof -
    have "log 2 (x * 2) = log 2 x + 1" using that by (simp add: log_mult)
    then show ?thesis using that by (simp add: floor_log2_def)
  qed
  have c: "floor_log2 x = 0" if "1 \<le> x" "x < 2"
  proof -
    have "0 \<le> log 2 x" using that by simp
    moreover have "log 2 x < 1" using that by (simp add: log_less_iff)
    ultimately show ?thesis using that by (simp add: floor_log2_def floor_eq_iff)
  qed
  show ?thesis using a b c by (auto simp: floor_log2_def)
qed

lemma bnd_Inr [simp]: "bnd (Inr x) f = f x"
  by (simp add: bnd_def)

lemma bnd_Inl [simp]: "bnd (Inl e) f = Inl e"
  by (simp add: bnd_def)

lemma bnd_eq_Inr: "bnd m f = Inr y \<longleftrightarrow> (\<exists>x. m = Inr x \<and> f x = Inr y)"
  by (cases m) simp_all

lemma uint_byte: "uint (of_int k :: byte) = k mod 256"
  by (simp add: uint_word_of_int)

lemma horner_bytes:
  assumes "0 \<le> n" "n < 4294967296"
  shows "((n div 256 div 256 div 256 mod 256 * 256 + n div 256 div 256 mod 256) * 256
           + n div 256 mod 256) * 256 + n mod 256 = (n::int)"
proof -
  define a where "a = n div 256"
  define b where "b = a div 256"
  define c where "c = b div 256"
  have "a < 16777216" unfolding a_def using assms by linarith
  then have "b < 65536" unfolding b_def by linarith
  then have "c < 256" unfolding c_def by linarith
  moreover have "0 \<le> c" unfolding c_def b_def a_def using assms by simp
  ultimately have c: "c mod 256 = c" by simp
  have "c * 256 + b mod 256 = b" unfolding c_def by simp
  moreover have "b * 256 + a mod 256 = a" unfolding b_def by simp
  moreover have "a * 256 + n mod 256 = n" unfolding a_def by simp
  ultimately show ?thesis unfolding a_def[symmetric] b_def[symmetric] c_def[symmetric] c by simp
qed

lemma length_be_bytes32 [simp]: "length (be_bytes32 n) = 4"
  by (simp add: be_bytes32_def)

lemma rd_be_bytes32:
  assumes "0 \<le> n" "n < 4294967296"
  shows "rd_u32 (pre @ be_bytes32 n @ post) (length pre) = Inr (n, length pre + 4)"
  using horner_bytes[OF assms]
  by (simp add: rd_u32_def be_bytes32_def nth_append uint_byte)

lemma rd_be_bytes32_0:
  assumes "0 \<le> n" "n < 4294967296"
  shows "rd_u32 (be_bytes32 n @ post) 0 = Inr (n, 4)"
  using rd_be_bytes32[OF assms, of "[]" post] by simp

lemma mask32: "(0xFFFFFFFF :: int) = mask 32"
  by (simp add: mask_eq_exp_minus_1)

lemma and_ffffffff: "(n::int) AND 0xFFFFFFFF = n mod 4294967296"
  unfolding mask32 by (simp add: take_bit_eq_mask[symmetric] take_bit_eq_mod)

lemma and_80000000:
  assumes "0 \<le> v" "v < 4294967296"
  shows "(v AND 0x80000000 \<noteq> 0) = (2147483648 \<le> (v::int))"
proof -
  have e: "(0x80000000 :: int) = 2 ^ 31" by simp
  have "(v AND 2 ^ 31 = 0) = (\<not> bit v 31)" by (rule and_exp_eq_0_iff_not_bit)
  moreover have "bit v 31 = odd (v div 2 ^ 31)" by (rule bit_iff_odd)
  moreover have "odd (v div 2147483648) = (2147483648 \<le> v)"
  proof (cases "2147483648 \<le> v")
    case True
    then have "v div 2147483648 = 1" using assms by linarith
    then show ?thesis using True by simp
  next
    case False
    then have "v div 2147483648 = 0" using assms by simp
    then show ?thesis using False by simp
  qed
  ultimately show ?thesis unfolding e by simp
qed

lemma dec_int_value:
  assumes "0 \<le> v" "v < 4294967296"
  shows "(if v AND 0x80000000 \<noteq> 0 then - ((NOT v + 1) AND 0xFFFFFFFF) else v)
         = (v + 2147483648) mod 4294967296 - (2147483648::int)"
proof (cases "2147483648 \<le> v")
  case True
  have "NOT v + 1 = - v" by (simp add: minus_eq_not_plus_1)
  moreover have "(- v) mod 4294967296 = 4294967296 - v"
    using assms True by (simp add: zmod_zminus1_eq_if)
  moreover have "(v + 2147483648) mod 4294967296 = v - 2147483648"
  proof -
    have "v + 2147483648 = (v - 2147483648) + 4294967296" by linarith
    then have "(v + 2147483648) mod 4294967296 = ((v - 2147483648) + 4294967296) mod 4294967296"
      by (rule arg_cong)
    also have "\<dots> = (v - 2147483648) mod 4294967296"
      by (rule mod_add_self2)
    also have "\<dots> = v - 2147483648"
      using assms True by simp
    finally show ?thesis .
  qed
  ultimately show ?thesis using True and_80000000[OF assms] by (simp add: and_ffffffff)
next
  case False
  then have "(v + 2147483648) mod 4294967296 = v + 2147483648" using assms by simp
  then show ?thesis using False and_80000000[OF assms] by simp
qed


lemma be_u32_tags [simp]:
  "be_u32 T_INTEGER = Inr (be_bytes32 T_INTEGER)"
  "be_u32 T_BOOL = Inr (be_bytes32 T_BOOL)"
  "be_u32 T_STRING = Inr (be_bytes32 T_STRING)"
  "be_u32 T_DOUBLE = Inr (be_bytes32 T_DOUBLE)"
  "be_u32 T_ARRAY = Inr (be_bytes32 T_ARRAY)"
  "be_u32 T_STRUCT = Inr (be_bytes32 T_STRUCT)"
  unfolding be_u32_def T_INTEGER_def T_BOOL_def T_STRING_def T_DOUBLE_def T_ARRAY_def T_STRUCT_def
  by simp_all

lemma tag_range:
  "0 \<le> T_INTEGER \<and> T_INTEGER < 4294967296"
  "0 \<le> T_BOOL \<and> T_BOOL < 4294967296"
  "0 \<le> T_STRING \<and> T_STRING < 4294967296"
  "0 \<le> T_DOUBLE \<and> T_DOUBLE < 4294967296"
  "0 \<le> T_ARRAY \<and> T_ARRAY < 4294967296"
  "0 \<le> T_STRUCT \<and> T_STRUCT < 4294967296"
  unfolding T_INTEGER_def T_BOOL_def T_STRING_def T_DOUBLE_def T_ARRAY_def T_STRUCT_def
  by simp_all

lemmas tag_defs = T_INTEGER_def T_BOOL_def T_STRING_def T_DOUBLE_def T_ARRAY_def T_STRUCT_def

lemma tags_distinct [simp]:
  "T_STRING \<noteq> T_BOOL" "T_STRING \<noteq> T_INTEGER" "T_STRING \<noteq> T_DOUBLE" "T_STRING \<noteq> T_ARRAY"
  "T_STRING \<noteq> T_STRUCT" "T_BOOL \<noteq> T_STRING" "T_BOOL \<noteq> T_INTEGER" "T_BOOL \<noteq> T_DOUBLE"
  "T_BOOL \<noteq> T_ARRAY" "T_BOOL \<noteq> T_STRUCT" "T_INTEGER \<noteq> T_STRING" "T_INTEGER \<noteq> T_BOOL"
  "T_INTEGER \<noteq> T_DOUBLE" "T_INTEGER \<noteq> T_ARRAY" "T_INTEGER \<noteq> T_STRUCT"
  "T_DOUBLE \<noteq> T_STRING" "T_DOUBLE \<noteq> T_BOOL" "T_DOUBLE \<noteq> T_INTEGER" "T_DOUBLE \<noteq> T_ARRAY"
  "T_DOUBLE \<noteq> T_STRUCT" "T_ARRAY \<noteq> T_STRING" "T_ARRAY \<noteq> T_BOOL" "T_ARRAY \<noteq> T_INTEGER"
  "T_ARRAY \<noteq> T_DOUBLE" "T_ARRAY \<noteq> T_STRUCT" "T_STRUCT \<noteq> T_STRING" "T_STRUCT \<noteq> T_BOOL"
  "T_STRUCT \<noteq> T_INTEGER" "T_STRUCT \<noteq> T_DOUBLE" "T_STRUCT \<noteq> T_ARRAY"
  unfolding tag_defs by simp_all

declare dec_data_f.simps [simp del]

lemma dec_data_f_STRING:
  "rd_u32 buf ofs = Inr (T_STRING, ofs') \<Longrightarrow>
   dec_data_f (Suc f) e buf ofs = bnd (dec_string e buf ofs') (\<lambda>(s, ofs). Inr (PStr s, ofs))"
  by (simp add: dec_data_f.simps)

lemma dec_data_f_BOOL:
  "rd_u32 buf ofs = Inr (T_BOOL, ofs') \<Longrightarrow> dec_data_f (Suc f) e buf ofs = dec_bool buf ofs'"
  by (simp add: dec_data_f.simps)

lemma dec_data_f_INTEGER:
  "rd_u32 buf ofs = Inr (T_INTEGER, ofs') \<Longrightarrow> dec_data_f (Suc f) e buf ofs = dec_int buf ofs'"
  by (simp add: dec_data_f.simps)

lemma dec_data_f_DOUBLE:
  "rd_u32 buf ofs = Inr (T_DOUBLE, ofs') \<Longrightarrow> dec_data_f (Suc f) e buf ofs = dec_double buf ofs'"
  by (simp add: dec_data_f.simps)

lemma dec_data_f_ARRAY:
  "rd_u32 buf ofs = Inr (T_ARRAY, ofs') \<Longrightarrow>
   dec_data_f (Suc f) e buf ofs =
     bnd (rd_u32 buf ofs') (\<lambda>(n, ofs).
     bnd (dec_array_loop f e buf (nat n) ofs []) (\<lambda>(outl, ofs). Inr (PList outl, ofs)))"
  by (simp add: dec_data_f.simps)

lemma dec_data_f_STRUCT:
  "rd_u32 buf ofs = Inr (T_STRUCT, ofs') \<Longrightarrow>
   dec_data_f (Suc f) e buf ofs =
     bnd (rd_u32 buf ofs') (\<lambda>(n, ofs).
     bnd (dec_struct_loop f e buf (nat n) ofs []) (\<lambda>(outd, ofs). Inr (PDict outd, ofs)))"
  by (simp add: dec_data_f.simps)

lemma enc_integer_eq:
  "enc_integer n = Inr (be_bytes32 T_INTEGER @ be_bytes32 (n mod 4294967296))"
  by (simp add: enc_integer_def and_ffffffff be_u32_def tag_range)

lemma dec_int_be:
  assumes "0 \<le> v" "v < 4294967296"
  shows "dec_int (pre @ be_bytes32 v @ post) (length pre)
         = Inr (PInt ((v + 2147483648) mod 4294967296 - 2147483648), length pre + 4)"
  unfolding dec_int_def rd_be_bytes32[OF assms] using dec_int_value[OF assms]
  by simp

section \<open>Integers wrap modulo \<open>2^32\<close>\<close>

text \<open>
  Claim C10. For every Python integer \<open>n\<close>, of any magnitude, \<open>enc_integer\<close> returns a frame
  of eight bytes whose payload is \<open>n mod 2^32\<close>, and decoding it (with \<open>dec_int\<close> at the
  payload, or with \<open>dec_data\<close> from the tag) returns a value \<open>r\<close> with
  \<open>-2^31 \<le> r \<le> 2^31 - 1\<close> that is congruent to \<open>n\<close> modulo \<open>2^32\<close>.
\<close>
theorem enc_integer_wraps:
  "\<exists>bs r. enc_integer n = Inr bs \<and> length bs = 8
      \<and> rd_u32 bs 4 = Inr (n mod 4294967296, 8)
      \<and> dec_int bs 4 = Inr (PInt r, 8)
      \<and> dec_data encoding bs 0 = Inr (PInt r, 8)
      \<and> - 2147483648 \<le> r \<and> r \<le> 2147483647 \<and> (r - n) mod 4294967296 = 0"
proof -
  define v where "v = n mod 4294967296"
  define r where "r = (v + 2147483648) mod 4294967296 - 2147483648"
  define bs where "bs = be_bytes32 T_INTEGER @ be_bytes32 v"
  have v: "0 \<le> v" "v < 4294967296" by (simp_all add: v_def)
  have e: "enc_integer n = Inr bs" by (simp add: enc_integer_eq bs_def v_def)
  have l: "length bs = 8" by (simp add: bs_def)
  have rd: "rd_u32 bs 4 = Inr (v, 8)"
    using rd_be_bytes32[OF v, of "be_bytes32 T_INTEGER" "[]"] by (simp add: bs_def)
  have di: "dec_int bs 4 = Inr (PInt r, 8)"
    using dec_int_be[OF v, of "be_bytes32 T_INTEGER" "[]"] by (simp add: bs_def r_def)
  have tg: "rd_u32 bs 0 = Inr (T_INTEGER, 4)"
    using rd_be_bytes32_0[of T_INTEGER "be_bytes32 v"] tag_range by (simp add: bs_def)
  have dd: "dec_data encoding bs 0 = Inr (PInt r, 8)"
    using di by (simp add: dec_data_def dec_data_f_INTEGER[OF tg])
  have r1: "- 2147483648 \<le> r" "r \<le> 2147483647"
    unfolding r_def by (simp, smt (verit) pos_mod_bound)
  have "(r - n) mod 4294967296 = (((v + 2147483648) mod 4294967296 - 2147483648) - n) mod 4294967296"
    by (simp add: r_def)
  also have "\<dots> = ((v + 2147483648) - 2147483648 - n) mod 4294967296"
    by (metis (no_types) mod_diff_left_eq)
  also have "\<dots> = (n mod 4294967296 - n) mod 4294967296" by (simp add: v_def)
  also have "\<dots> = 0" by (simp add: mod_diff_left_eq)
  finally have r2: "(r - n) mod 4294967296 = 0" .
  show ?thesis
    apply (rule exI[of _ bs])
    apply (rule exI[of _ r])
    using e l rd di dd r1 r2 unfolding v_def[symmetric] by simp
qed

section \<open>Booleans\<close>

text \<open>
  Claim C4, as amended. Decoding a Bool yields true if and only if the stored byte equals
  1: the decoder compares the byte with 1, so every other byte, zero or not, is false.
\<close>
theorem dec_bool_only_one:
  "dec_bool (pre @ b # post) (length pre) = Inr (PBool (b = 1), length pre + 1)"
  by (simp add: dec_bool_def)

text \<open>
  As stated, C4 says that any nonzero stored byte decodes to true. The stored byte 2 is
  nonzero and decodes to false.
\<close>

theorem dec_bool_nonzero_false:
  "dec_bool [2] 0 = Inr (PBool False, 1) \<and> (2 :: byte) \<noteq> 0
   \<and> dec_data ascii [0, 0, 0, 2, 2] 0 = Inr (PBool False, 5)"
proof -
  have "rd_u32 [0, 0, 0, 2, 2] 0 = Inr (T_BOOL, 4)" by (simp add: rd_u32_def T_BOOL_def)
  then show ?thesis by (simp add: dec_data_def dec_data_f_BOOL dec_bool_def)
qed

section \<open>Unsupported type tags\<close>

text \<open>
  Claim C7. When the four bytes at the offset can be read and the tag they hold is none of
  the six recognised tags, \<open>dec_data\<close> raises the \<^verbatim>\<open>ValueError\<close> for an unsupported type
  and returns no value.
\<close>
theorem dec_data_unsupported_tag:
  assumes "rd_u32 buf ofs = Inr (t, ofs')"
    and "t \<notin> {T_INTEGER, T_BOOL, T_STRING, T_DOUBLE, T_ARRAY, T_STRUCT}"
  shows "dec_data encoding buf ofs = Inl (Unsupported_type t)"
  using assms by (simp add: dec_data_def dec_data_f.simps)

text \<open>The tag \<open>T_BINARY\<close> of \<^verbatim>\<open>const.py\<close> is such a tag.\<close>

theorem dec_data_unsupported_tag_witness:
  "rd_u32 [0, 0, 0, 14, 1] 0 = Inr (T_BINARY, 4)
   \<and> T_BINARY \<notin> {T_INTEGER, T_BOOL, T_STRING, T_DOUBLE, T_ARRAY, T_STRUCT}
   \<and> dec_data ascii [0, 0, 0, 14, 1] 0 = Inl (Unsupported_type T_BINARY)"
proof -
  have a: "rd_u32 [0, 0, 0, 14, 1] 0 = Inr (T_BINARY, 4)"
    by (simp add: rd_u32_def T_BINARY_def)
  have b: "T_BINARY \<notin> {T_INTEGER, T_BOOL, T_STRING, T_DOUBLE, T_ARRAY, T_STRUCT}"
    unfolding T_INTEGER_def T_BOOL_def T_STRING_def T_DOUBLE_def T_ARRAY_def T_STRUCT_def
      T_BINARY_def by simp
  show ?thesis using a b dec_data_unsupported_tag[OF a b, of ascii] by simp
qed

section \<open>Doubles\<close>

text \<open>
  Claim C8. Encoding the double 0.0 yields mantissa 0 and exponent 0, and the frame written
  for it holds the tag followed by eight zero bytes.
\<close>
theorem enc_double_zero:
  "enc_double_parts 0 = (0, 0)
   \<and> enc_double 0 = Inr (be_bytes32 T_DOUBLE @ [0, 0, 0, 0] @ [0, 0, 0, 0])"
  by (simp add: enc_double_parts_def enc_double_def be_i32_def be_u32_def be_bytes32_def tag_range)

end
